theory Spec2Isabelle
  imports Complex_Main "HOL-Library.Word" "HOL-Library.Multiset" "HOL-Library.Product_Lexorder"
begin

section \<open>The to-do list component \<open>src/components/TodoList.tsx\<close>\<close>

text \<open>
  The source file holds two versions of the component \<open>TodoList\<close>. The second one (with
  due dates, sorting and the overdue flag) is embedded under the source's names; the first
  one carries the suffix \<open>1\<close>. React state is a record, every handler is a function from
  the state before the event to the state after it, and the two readings of the
  environment the handlers make (\<open>Date.now()\<close>, \<open>new Date()\<close>) are arguments.
\<close>

subsection \<open>Strings\<close>

text \<open>
  A JavaScript string is a sequence of UTF-16 code units; \<open>===\<close> on strings is equality
  of these sequences.
\<close>

type_synonym code_unit = "16 word"
type_synonym jsstring = "code_unit list"

definition ascii :: "string \<Rightarrow> jsstring" where
  "ascii s = map of_char s"

text \<open>
  \<open>String.prototype.trim\<close> removes leading and trailing white space and line terminators
  (ECMAScript: TAB, VT, FF, SP, NBSP, ZWNBSP, the category Zs, and LF, CR, LS, PS).
\<close>

definition isWhiteSpace :: "code_unit \<Rightarrow> bool" where
  "isWhiteSpace c \<longleftrightarrow>
     c = 0x0009 \<or> c = 0x000A \<or> c = 0x000B \<or> c = 0x000C \<or> c = 0x000D \<or> c = 0x0020 \<or>
     c = 0x00A0 \<or> c = 0x1680 \<or> (0x2000 \<le> c \<and> c \<le> 0x200A) \<or> c = 0x2028 \<or>
     c = 0x2029 \<or> c = 0x202F \<or> c = 0x205F \<or> c = 0x3000 \<or> c = 0xFEFF"

definition trim :: "jsstring \<Rightarrow> jsstring" where
  "trim s = rev (dropWhile isWhiteSpace (rev (dropWhile isWhiteSpace s)))"

text \<open>
  \<open>Date.now().toString()\<close>: the clock reading is an integral number of milliseconds
  far below \<open>10\<^sup>2\<^sup>1\<close>, so \<open>Number.prototype.toString\<close> yields its decimal digits, with a
  leading minus sign for a negative reading.
\<close>

definition digit :: "nat \<Rightarrow> code_unit" where
  "digit d = of_nat (48 + d)"

function digits :: "nat \<Rightarrow> jsstring" where
  "digits n = (if n < 10 then [digit n] else digits (n div 10) @ [digit (n mod 10)])"
  by pat_completeness auto
termination
  by (relation "measure (\<lambda>n. n)") auto

declare digits.simps [simp del]

definition toString :: "int \<Rightarrow> jsstring" where
  "toString i = (if i < 0 then 0x002D # digits (nat (- i)) else digits (nat i))"

subsection \<open>Tasks and component state (second version)\<close>

text \<open>
  \<open>interface Task { id: string; text: string; completed: boolean; dueDate?: Date }\<close>.
  A \<open>Date\<close> is its time value, the milliseconds since the epoch (the date picker gives
  valid dates only); an absent \<open>dueDate\<close> (\<open>undefined\<close>) is \<open>None\<close>. The fields \<open>id\<close> and
  \<open>text\<close> carry the suffix \<open>_t\<close>.
\<close>

record task =
  id_t :: jsstring
  text_t :: jsstring
  completed :: bool
  dueDate :: "int option"

datatype SortOption = SortNone | Deadline

record state =
  tasks :: "task list"
  inputValue :: jsstring
  selectedDate :: "int option"
  sortBy :: SortOption

definition initial :: state where
  "initial = \<lparr>tasks = [], inputValue = [], selectedDate = None, sortBy = Deadline\<rparr>"

definition addTask :: "int \<Rightarrow> state \<Rightarrow> state" where
  "addTask now st =
     (let trimmedText = trim (inputValue st) in
      if trimmedText = [] then st
      else
        let newTask = \<lparr>id_t = toString now, text_t = trimmedText, completed = False,
                        dueDate = selectedDate st\<rparr>
        in st\<lparr>tasks := tasks st @ [newTask], inputValue := [], selectedDate := None\<rparr>)"

definition toggleComplete :: "jsstring \<Rightarrow> state \<Rightarrow> state" where
  "toggleComplete i st =
     st\<lparr>tasks := map (\<lambda>t. if id_t t = i then t\<lparr>completed := \<not> completed t\<rparr> else t)
                      (tasks st)\<rparr>"

definition deleteTask :: "jsstring \<Rightarrow> state \<Rightarrow> state" where
  "deleteTask i st = st\<lparr>tasks := filter (\<lambda>t. id_t t \<noteq> i) (tasks st)\<rparr>"

text \<open>
  The events of the user interface: typing (\<open>onChange\<close>), picking or clearing a date
  (\<open>onSelect\<close>, the clear button), choosing the sort mode, and the three store operations.
  \<open>AddTask\<close> carries the value \<open>Date.now()\<close> returns when the handler runs.
\<close>

datatype event =
    SetInputValue jsstring
  | SetSelectedDate "int option"
  | SetSortBy SortOption
  | AddTask int
  | ToggleComplete jsstring
  | DeleteTask jsstring

fun step :: "event \<Rightarrow> state \<Rightarrow> state" where
  "step (SetInputValue s) st = st\<lparr>inputValue := s\<rparr>"
| "step (SetSelectedDate d) st = st\<lparr>selectedDate := d\<rparr>"
| "step (SetSortBy m) st = st\<lparr>sortBy := m\<rparr>"
| "step (AddTask now) st = addTask now st"
| "step (ToggleComplete i) st = toggleComplete i st"
| "step (DeleteTask i) st = deleteTask i st"

fun run :: "event list \<Rightarrow> state \<Rightarrow> state" where
  "run [] st = st"
| "run (e # es) st = run es (step e st)"

subsection \<open>Tasks and component state (first version)\<close>

text \<open>
  \<open>interface Task { id: string; text: string; completed: boolean }\<close>, and a component
  state of the task list and the input field only.
\<close>

record task1 =
  id_t1 :: jsstring
  text_t1 :: jsstring
  completed1 :: bool

record state1 =
  tasks1 :: "task1 list"
  inputValue1 :: jsstring

definition initial1 :: state1 where
  "initial1 = \<lparr>tasks1 = [], inputValue1 = []\<rparr>"

definition addTask1 :: "int \<Rightarrow> state1 \<Rightarrow> state1" where
  "addTask1 now st =
     (let trimmedText = trim (inputValue1 st) in
      if trimmedText = [] then st
      else
        let newTask = \<lparr>id_t1 = toString now, text_t1 = trimmedText, completed1 = False\<rparr>
        in st\<lparr>tasks1 := tasks1 st @ [newTask], inputValue1 := []\<rparr>)"

definition toggleComplete1 :: "jsstring \<Rightarrow> state1 \<Rightarrow> state1" where
  "toggleComplete1 i st =
     st\<lparr>tasks1 := map (\<lambda>t. if id_t1 t = i then t\<lparr>completed1 := \<not> completed1 t\<rparr> else t)
                       (tasks1 st)\<rparr>"

definition deleteTask1 :: "jsstring \<Rightarrow> state1 \<Rightarrow> state1" where
  "deleteTask1 i st = st\<lparr>tasks1 := filter (\<lambda>t. id_t1 t \<noteq> i) (tasks1 st)\<rparr>"

datatype event1 =
    SetInputValue1 jsstring
  | AddTask1 int
  | ToggleComplete1 jsstring
  | DeleteTask1 jsstring

fun step1 :: "event1 \<Rightarrow> state1 \<Rightarrow> state1" where
  "step1 (SetInputValue1 s) st = st\<lparr>inputValue1 := s\<rparr>"
| "step1 (AddTask1 now) st = addTask1 now st"
| "step1 (ToggleComplete1 i) st = toggleComplete1 i st"
| "step1 (DeleteTask1 i) st = deleteTask1 i st"

fun run1 :: "event1 list \<Rightarrow> state1 \<Rightarrow> state1" where
  "run1 [] st = st"
| "run1 (e # es) st = run1 es (step1 e st)"

subsection \<open>Derived view: sorting and the overdue flag\<close>

text \<open>
  The comparator handed to \<open>Array.prototype.sort\<close>. A \<open>Date\<close> object is truthy, so
  \<open>a.dueDate && b.dueDate\<close> tests that both are present. The difference of two time
  values has the sign of the exact difference.
\<close>

definition compareTasks :: "task \<Rightarrow> task \<Rightarrow> int" where
  "compareTasks a b =
     (if completed a \<noteq> completed b then (if completed a then 1 else - 1)
      else case (dueDate a, dueDate b) of
             (Some x, Some y) \<Rightarrow> x - y
           | (Some x, None) \<Rightarrow> - 1
           | (None, Some y) \<Rightarrow> 1
           | (None, None) \<Rightarrow> 0)"

text \<open>
  \<open>Array.prototype.sort\<close> with a comparator is a stable sort (ECMAScript 2019): an element
  moves in front of another one only where the comparator returns a positive number for
  the pair in its current order. The model inserts the elements from the right, each in
  front of the first element it does not compare greater than.
\<close>

fun insertBy :: "('a \<Rightarrow> 'a \<Rightarrow> int) \<Rightarrow> 'a \<Rightarrow> 'a list \<Rightarrow> 'a list" where
  "insertBy cmp x [] = [x]"
| "insertBy cmp x (y # ys) = (if cmp x y \<le> 0 then x # y # ys else y # insertBy cmp x ys)"

fun array_sort :: "('a \<Rightarrow> 'a \<Rightarrow> int) \<Rightarrow> 'a list \<Rightarrow> 'a list" where
  "array_sort cmp [] = []"
| "array_sort cmp (x # xs) = insertBy cmp x (array_sort cmp xs)"

definition getSortedTasks :: "state \<Rightarrow> task list" where
  "getSortedTasks st =
     (if sortBy st = SortNone then tasks st else array_sort compareTasks (tasks st))"

text \<open>
  \<open>startOfDay\<close> of date-fns is \<open>setHours(0, 0, 0, 0)\<close> on a copy of the date, which works in
  the local time zone. ECMAScript defines it through the offset of the zone,
  \<open>LocalTZA(t, isUTC)\<close>, which depends on the instant (daylight saving time): the offset
  at the UTC time \<open>t\<close> when \<open>isUTC\<close> is true, at the local time \<open>t\<close> when it is false.
  \<open>LocalTime(t) = t + LocalTZA(t, true)\<close>, \<open>UTC(t) = t - LocalTZA(t, false)\<close>, and
  \<open>setHours(0, 0, 0, 0)\<close> gives \<open>UTC(MakeDate(Day(LocalTime(t)), 0))\<close>, where \<open>Day\<close> is the
  whole number of days and \<open>MakeDate(d, 0)\<close> is \<open>d\<close> days. The zone is the argument \<open>tza\<close>.
  \<open>isBefore\<close> compares time values, and \<open>now\<close> is the value of \<open>new Date()\<close>.
\<close>

definition msPerDay :: int where
  "msPerDay = 86400000"







subsection \<open>Persistence in \<open>localStorage\<close>\<close>

text \<open>
  At run time the loaded tasks are untyped (\<open>any\<close>): whatever \<open>JSON.parse\<close> returns, plus
  the \<open>Date\<close> objects and \<open>undefined\<close> the load effect puts in. A number is a real (nothing
  below looks at more than whether it is zero); a \<open>Date\<close> is its time value, \<open>None\<close> for
  an Invalid Date; an object is the list of its own properties in enumeration order.
\<close>

datatype jsval =
    VUndefined
  | VNull
  | VBool bool
  | VNum real
  | VStr jsstring
  | VDate "int option"
  | VArr "jsval list"
  | VObj "(jsstring \<times> jsval) list"

datatype exn = SyntaxError | TypeError

text \<open>ToBoolean, as the conditional \<open>task.dueDate ? \<dots> : \<dots>\<close> applies it.\<close>

fun truthy :: "jsval \<Rightarrow> bool" where
  "truthy VUndefined = False"
| "truthy VNull = False"
| "truthy (VBool b) = b"
| "truthy (VNum x) = (x \<noteq> 0)"
| "truthy (VStr s) = (s \<noteq> [])"
| "truthy (VDate d) = True"
| "truthy (VArr xs) = True"
| "truthy (VObj ps) = True"

text \<open>
  The property read \<open>task.dueDate\<close>: a TypeError on \<open>null\<close> and \<open>undefined\<close>, the own
  property of an object, and \<open>undefined\<close> on every other value (no prototype has a
  property of this name).
\<close>

fun getDueDate :: "jsval \<Rightarrow> exn + jsval" where
  "getDueDate VUndefined = Inl TypeError"
| "getDueDate VNull = Inl TypeError"
| "getDueDate (VObj ps) =
     Inr (case map_of ps (ascii ''dueDate'') of None \<Rightarrow> VUndefined | Some v \<Rightarrow> v)"
| "getDueDate v = Inr VUndefined"

text \<open>
  The object literal \<open>{ ...task, dueDate: d }\<close>: the spread copies the own enumerable
  properties (the indexed elements of an array or a string, none of a number or a
  boolean), then \<open>dueDate\<close> is written, in place where the property exists and at the end
  where it does not.
\<close>

fun ownProps :: "jsval \<Rightarrow> (jsstring \<times> jsval) list" where
  "ownProps (VObj ps) = ps"
| "ownProps (VArr xs) = zip (map (\<lambda>k. toString (int k)) [0..<length xs]) xs"
| "ownProps (VStr s) =
     zip (map (\<lambda>k. toString (int k)) [0..<length s]) (map (\<lambda>c. VStr [c]) s)"
| "ownProps v = []"

fun setProp :: "jsstring \<Rightarrow> jsval \<Rightarrow> (jsstring \<times> jsval) list \<Rightarrow> (jsstring \<times> jsval) list" where
  "setProp k v [] = [(k, v)]"
| "setProp k v (p # ps) = (if fst p = k then (k, v) # ps else p # setProp k v ps)"

text \<open>
  The callback of \<open>parsedTasks.map\<close>. The constructor \<open>new Date(v)\<close> is the argument
  \<open>newDate\<close>: parsing a string that is not in the ISO format is implementation-defined,
  the result may be an Invalid Date (\<open>Inr None\<close>), and the conversion of an object to a
  primitive may throw (\<open>Inl\<close>).
\<close>

definition reviveTask :: "(jsval \<Rightarrow> exn + int option) \<Rightarrow> jsval \<Rightarrow> exn + jsval" where
  "reviveTask newDate task =
     (case getDueDate task of
        Inl e \<Rightarrow> Inl e
      | Inr d \<Rightarrow>
          if truthy d then
            (case newDate d of
               Inl e \<Rightarrow> Inl e
             | Inr t \<Rightarrow> Inr (VObj (setProp (ascii ''dueDate'') (VDate t) (ownProps task))))
          else Inr (VObj (setProp (ascii ''dueDate'') VUndefined (ownProps task))))"

text \<open>\<open>Array.prototype.map\<close>, stopping at the first exception of the callback.\<close>

fun array_map :: "(jsval \<Rightarrow> exn + jsval) \<Rightarrow> jsval list \<Rightarrow> exn + jsval list" where
  "array_map f [] = Inr []"
| "array_map f (x # xs) =
     (case f x of
        Inl e \<Rightarrow> Inl e
      | Inr y \<Rightarrow> (case array_map f xs of Inl e \<Rightarrow> Inl e | Inr ys \<Rightarrow> Inr (y # ys)))"

text \<open>
  What \<open>localStorage.getItem("tasks")\<close> holds, as the load effect reads it: nothing or
  the empty string (both falsy), a text on which \<open>JSON.parse\<close> throws, or a text that
  \<open>JSON.parse\<close> turns into a value.
\<close>

datatype stored = NoItem | Unparsable | Document jsval

text \<open>
  The part of the component the load effect touches: the value of the state variable
  \<open>tasks\<close>, which is \<open>[]\<close> at mount, and what was written with \<open>console.error\<close>.
\<close>

record mounted =
  tasksValue :: jsval
  consoleErrors :: "jsstring list"

definition atMount :: mounted where
  "atMount = \<lparr>tasksValue = VArr [], consoleErrors = []\<rparr>"

definition parseFailed :: jsstring where
  "parseFailed = ascii ''Failed to parse tasks from localStorage''"

text \<open>
  \<open>parsedTasks.map(\<dots>)\<close> in the second version: \<open>map\<close> is a function only when
  \<open>parsedTasks\<close> is an array, and calling what is not a function is a TypeError.
\<close>

definition withDates :: "(jsval \<Rightarrow> exn + int option) \<Rightarrow> jsval \<Rightarrow> exn + jsval" where
  "withDates newDate parsedTasks =
     (case parsedTasks of
        VArr xs \<Rightarrow>
          (case array_map (reviveTask newDate) xs of
             Inl e \<Rightarrow> Inl e
           | Inr tasksWithDates \<Rightarrow> Inr (VArr tasksWithDates))
      | _ \<Rightarrow> Inl TypeError)"

text \<open>
  The load effects. Nothing is done when \<open>savedTasks\<close> is falsy. \<open>JSON.parse\<close> and, in the
  second version, the mapping run inside \<open>try\<close>, and the \<open>catch\<close> clause logs the
  diagnostic whatever was thrown. The result is \<open>Inl\<close> where an exception leaves the
  effect, and the component after the effect otherwise.
\<close>

definition loadTasks :: "(jsval \<Rightarrow> exn + int option) \<Rightarrow> stored \<Rightarrow> mounted \<Rightarrow> exn + mounted" where
  "loadTasks newDate savedTasks m =
     (case savedTasks of
        NoItem \<Rightarrow> Inr m
      | Unparsable \<Rightarrow> Inr (m\<lparr>consoleErrors := consoleErrors m @ [parseFailed]\<rparr>)
      | Document parsedTasks \<Rightarrow>
          (case withDates newDate parsedTasks of
             Inr tasksWithDates \<Rightarrow> Inr (m\<lparr>tasksValue := tasksWithDates\<rparr>)
           | Inl e \<Rightarrow> Inr (m\<lparr>consoleErrors := consoleErrors m @ [parseFailed]\<rparr>)))"

definition loadTasks1 :: "stored \<Rightarrow> mounted \<Rightarrow> exn + mounted" where
  "loadTasks1 savedTasks m =
     (case savedTasks of
        NoItem \<Rightarrow> Inr m
      | Unparsable \<Rightarrow> Inr (m\<lparr>consoleErrors := consoleErrors m @ [parseFailed]\<rparr>)
      | Document v \<Rightarrow> Inr (m\<lparr>tasksValue := v\<rparr>))"

text \<open>
  Rendering the first version with the loaded value: \<open>tasks.map\<close> (line 88) is a function
  only when \<open>tasks\<close> is an array, and the callback reads \<open>task.id\<close>, \<open>task.completed\<close> and
  \<open>task.text\<close>, a TypeError on \<open>null\<close> and \<open>undefined\<close>. An exception in rendering is not
  caught anywhere. \<open>Inr\<close> says only that these steps did not throw.
\<close>

definition render1 :: "jsval \<Rightarrow> exn + unit" where
  "render1 tasksV =
     (case tasksV of
        VArr xs \<Rightarrow>
          if list_ex (\<lambda>task. task = VNull \<or> task = VUndefined) xs then Inl TypeError
          else Inr ()
      | _ \<Rightarrow> Inl TypeError)"

text \<open>Mounting the first version: the load effect, then the render with what it set.\<close>

definition mount1 :: "stored \<Rightarrow> exn + mounted" where
  "mount1 savedTasks =
     (case loadTasks1 savedTasks atMount of
        Inl e \<Rightarrow> Inl e
      | Inr m \<Rightarrow> (case render1 (tasksValue m) of Inl e \<Rightarrow> Inl e | Inr u \<Rightarrow> Inr m))"

text \<open>
  The save effect, \<open>JSON.stringify(tasks)\<close>: a property whose value is \<open>undefined\<close> is left
  out, and a \<open>Date\<close> is written as the string \<open>toISOString\<close> gives (through \<open>toJSON\<close>). The
  run-time object of a typed task is the object literal \<open>addTask\<close> builds.
\<close>

definition taskObject :: "task \<Rightarrow> jsval" where
  "taskObject t =
     VObj [(ascii ''id'', VStr (id_t t)), (ascii ''text'', VStr (text_t t)),
           (ascii ''completed'', VBool (completed t)),
           (ascii ''dueDate'', case dueDate t of None \<Rightarrow> VUndefined | Some d \<Rightarrow> VDate (Some d))]"

definition stringifyTask :: "(int \<Rightarrow> jsstring) \<Rightarrow> task \<Rightarrow> jsval" where
  "stringifyTask toISOString t =
     VObj ([(ascii ''id'', VStr (id_t t)), (ascii ''text'', VStr (text_t t)),
            (ascii ''completed'', VBool (completed t))] @
           (case dueDate t of
              None \<Rightarrow> []
            | Some d \<Rightarrow> [(ascii ''dueDate'', VStr (toISOString d))]))"

definition saveTasks :: "(int \<Rightarrow> jsstring) \<Rightarrow> task list \<Rightarrow> stored" where
  "saveTasks toISOString ts = Document (VArr (map (stringifyTask toISOString) ts))"

subsection \<open>The specification's notions\<close>

text \<open>
  The order of the deadline view in the specification's words: incomplete before
  completed; with equal completion, dated before undated; of two dated tasks, the
  earlier first. \<open>deadlineKey\<close> is the same order as a lexicographic key.
\<close>

definition comesBefore :: "task \<Rightarrow> task \<Rightarrow> bool" where
  "comesBefore a b \<longleftrightarrow>
     (\<not> completed a \<and> completed b) \<or>
     (completed a = completed b \<and>
        (case (dueDate a, dueDate b) of
           (Some x, Some y) \<Rightarrow> x < y
         | (Some x, None) \<Rightarrow> True
         | (None, _) \<Rightarrow> False))"

definition tied :: "task \<Rightarrow> task \<Rightarrow> bool" where
  "tied a b \<longleftrightarrow> \<not> comesBefore a b \<and> \<not> comesBefore b a"

definition deadlineKey :: "task \<Rightarrow> bool \<times> bool \<times> int" where
  "deadlineKey t =
     (completed t, dueDate t = None, case dueDate t of None \<Rightarrow> 0 | Some d \<Rightarrow> d)"


text \<open>
  The stored text has the expected shape when it parses to an array of objects with a
  string \<open>id\<close>, a string \<open>text\<close>, a boolean \<open>completed\<close> and a \<open>dueDate\<close> that is a string
  or absent.
\<close>

fun isTaskJSON :: "jsval \<Rightarrow> bool" where
  "isTaskJSON (VObj ps) =
     (case (map_of ps (ascii ''id''), map_of ps (ascii ''text''),
            map_of ps (ascii ''completed'')) of
        (Some (VStr i), Some (VStr x), Some (VBool c)) \<Rightarrow>
          (case map_of ps (ascii ''dueDate'') of
             None \<Rightarrow> True
           | Some (VStr d) \<Rightarrow> True
           | Some v \<Rightarrow> False)
      | _ \<Rightarrow> False)"
| "isTaskJSON v = False"

definition expectedShape :: "stored \<Rightarrow> bool" where
  "expectedShape s = (case s of Document (VArr xs) \<Rightarrow> list_all isTaskJSON xs | _ \<Rightarrow> False)"

text \<open>
  A run in which every add that appends a task reads a clock value whose decimal string
  is not yet an id of the store.
\<close>

fun freshAdds :: "event list \<Rightarrow> state \<Rightarrow> bool" where
  "freshAdds [] st = True"
| "freshAdds (AddTask now # es) st =
     ((trim (inputValue st) = [] \<or> toString now \<notin> set (map id_t (tasks st))) \<and>
      freshAdds es (addTask now st))"
| "freshAdds (e # es) st = freshAdds es (step e st)"

text \<open>The clock values the adds of a run read.\<close>

fun clocks :: "event list \<Rightarrow> int list" where
  "clocks [] = []"
| "clocks (AddTask now # es) = now # clocks es"
| "clocks (e # es) = clocks es"

text \<open>
  Forgetting the due dates: a task, a state and a run of the second version seen as one
  of the first version. The first version has no event for the date picker or the sort
  mode.
\<close>

definition forgetTask :: "task \<Rightarrow> task1" where
  "forgetTask t = \<lparr>id_t1 = id_t t, text_t1 = text_t t, completed1 = completed t\<rparr>"

definition forgetState :: "state \<Rightarrow> state1" where
  "forgetState st = \<lparr>tasks1 = map forgetTask (tasks st), inputValue1 = inputValue st\<rparr>"

fun forgetEvents :: "event list \<Rightarrow> event1 list" where
  "forgetEvents [] = []"
| "forgetEvents (SetInputValue s # es) = SetInputValue1 s # forgetEvents es"
| "forgetEvents (AddTask now # es) = AddTask1 now # forgetEvents es"
| "forgetEvents (ToggleComplete i # es) = ToggleComplete1 i # forgetEvents es"
| "forgetEvents (DeleteTask i # es) = DeleteTask1 i # forgetEvents es"
| "forgetEvents (SetSelectedDate d # es) = forgetEvents es"
| "forgetEvents (SetSortBy m # es) = forgetEvents es"

section \<open>Properties\<close>

subsection \<open>Evaluation of the string functions\<close>

lemmas digits_eval =
  digits.simps [of "numeral k" for k] digits.simps [of "Suc 0"] digits.simps [of 0]

lemma dropWhile_all_Nil: "(\<forall>x\<in>set (dropWhile P s). P x) \<longleftrightarrow> dropWhile P s = []"
proof
  assume a: "\<forall>x\<in>set (dropWhile P s). P x"
  show "dropWhile P s = []"
  proof (rule ccontr)
    assume n: "dropWhile P s \<noteq> []"
    then have "\<not> P (hd (dropWhile P s))" by (rule hd_dropWhile)
    moreover from n have "hd (dropWhile P s) \<in> set (dropWhile P s)" by simp
    ultimately show False using a by blast
  qed
qed (auto dest: set_dropWhileD)

lemma trim_empty_iff: "trim s = [] \<longleftrightarrow> (\<forall>c\<in>set s. isWhiteSpace c)"
  by (simp add: trim_def dropWhile_eq_Nil_conv dropWhile_all_Nil)

subsection \<open>Adding a task\<close>

text \<open>
  C3. When the text of the input field trims to the empty string, that is when it is empty
  or made of white space only, \<open>addTask\<close> returns the state it was given, in both versions
  of the component: the task sequence is unchanged and nothing is raised.
\<close>

theorem add_blank_noop:
  assumes "trim s = [] \<or> (\<forall>c\<in>set s. isWhiteSpace c)"
  shows "addTask now (st\<lparr>inputValue := s\<rparr>) = st\<lparr>inputValue := s\<rparr> \<and>
         addTask1 now (st1\<lparr>inputValue1 := s\<rparr>) = st1\<lparr>inputValue1 := s\<rparr>"
  using assms by (auto simp: addTask_def addTask1_def trim_empty_iff)

theorem add_blank_noop_witness:
  "(trim [0x20, 0x09] = [] \<or> (\<forall>c\<in>set [0x20, 0x09 :: code_unit]. isWhiteSpace c)) \<and>
   addTask 5 (initial\<lparr>inputValue := [0x20, 0x09]\<rparr>) = initial\<lparr>inputValue := [0x20, 0x09]\<rparr> \<and>
   addTask1 5 (initial1\<lparr>inputValue1 := [0x20, 0x09]\<rparr>) = initial1\<lparr>inputValue1 := [0x20, 0x09]\<rparr>"
proof -
  have h: "trim [0x20, 0x09] = [] \<or> (\<forall>c\<in>set [0x20, 0x09 :: code_unit]. isWhiteSpace c)"
    by (simp add: isWhiteSpace_def)
  show ?thesis
    using h add_blank_noop [OF h, of 5 initial initial1] by simp
qed

text \<open>
  C4, as the code has it. When the text of the input field does not trim to the empty
  string, \<open>addTask\<close> appends exactly one task at the end: its text is the trimmed input, it
  is not completed, its due date is the selected date, and its id is the decimal string
  of the clock value. The length grows by one, the tasks that were there are unchanged,
  and the input text and the selected date are cleared. The id is new in the store
  when no task already carries that string; nothing in \<open>addTask\<close> makes it so.
\<close>

theorem add_appends_one:
  assumes "trim (inputValue st) \<noteq> []"
  shows "addTask now st =
           st\<lparr>tasks := tasks st @ [\<lparr>id_t = toString now, text_t = trim (inputValue st),
                                     completed = False, dueDate = selectedDate st\<rparr>],
               inputValue := [], selectedDate := None\<rparr> \<and>
         length (tasks (addTask now st)) = length (tasks st) + 1 \<and>
         take (length (tasks st)) (tasks (addTask now st)) = tasks st \<and>
         inputValue (addTask now st) = [] \<and> selectedDate (addTask now st) = None \<and>
         (toString now \<notin> id_t ` set (tasks st) \<longrightarrow>
            id_t (last (tasks (addTask now st))) \<notin> id_t ` set (tasks st))"
  using assms by (simp add: addTask_def Let_def)

theorem add_appends_one_witness:
  "trim (inputValue (initial\<lparr>inputValue := ascii ''  Buy milk ''\<rparr>)) \<noteq> [] \<and>
   tasks (addTask 1700000000000 (initial\<lparr>inputValue := ascii ''  Buy milk ''\<rparr>)) =
     [\<lparr>id_t = ascii ''1700000000000'', text_t = ascii ''Buy milk'', completed = False,
       dueDate = None\<rparr>]"
proof -
  have t: "trim (ascii ''  Buy milk '') = ascii ''Buy milk''"
    by code_simp
  have n: "toString 1700000000000 = ascii ''1700000000000''"
    by (simp add: toString_def digits_eval digit_def ascii_def)
  have h: "trim (inputValue (initial\<lparr>inputValue := ascii ''  Buy milk ''\<rparr>)) \<noteq> []"
    by (simp add: t) (simp add: ascii_def)
  show ?thesis
    using h add_appends_one [OF h, of 1700000000000] by (simp add: t n initial_def)
qed

text \<open>
  The id of C4 is not always fresh: the store holds the task made at clock value 5, and
  \<open>addTask\<close> runs at clock value 5 again. The new task has the id of the old one.
\<close>

theorem add_id_not_fresh_counterexample:
  "trim (inputValue \<lparr>tasks = [\<lparr>id_t = toString 5, text_t = ascii ''a'', completed = False,
                               dueDate = None\<rparr>],
                     inputValue = ascii ''b'', selectedDate = None, sortBy = Deadline\<rparr>) \<noteq> [] \<and>
   id_t (last (tasks (addTask 5
      \<lparr>tasks = [\<lparr>id_t = toString 5, text_t = ascii ''a'', completed = False, dueDate = None\<rparr>],
       inputValue = ascii ''b'', selectedDate = None, sortBy = Deadline\<rparr>)))
     \<in> id_t ` set (tasks
      \<lparr>tasks = [\<lparr>id_t = toString 5, text_t = ascii ''a'', completed = False, dueDate = None\<rparr>],
       inputValue = ascii ''b'', selectedDate = None, sortBy = Deadline\<rparr>)"
  by (simp add: addTask_def trim_def ascii_def isWhiteSpace_def)

subsection \<open>Toggling and deleting\<close>

lemma toggle_twice_tasks:
  "map (\<lambda>t. if id_t t = i then t\<lparr>completed := \<not> completed t\<rparr> else t)
     (map (\<lambda>t. if id_t t = i then t\<lparr>completed := \<not> completed t\<rparr> else t) ts) = ts"
  by (induction ts) auto

text \<open>
  C5. Toggling the same id twice gives back the state, so every task with that id has its
  original \<open>completed\<close> value. One toggle keeps the length and the positions, leaves every
  task with another id as it was, and changes nothing but \<open>completed\<close> in a task with
  that id. Toggling an id that no task carries changes nothing.
\<close>

theorem toggle_twice_restores:
  "toggleComplete i (toggleComplete i st) = st \<and>
   length (tasks (toggleComplete i st)) = length (tasks st) \<and>
   (\<forall>k < length (tasks st).
      (id_t (tasks st ! k) \<noteq> i \<longrightarrow> tasks (toggleComplete i st) ! k = tasks st ! k) \<and>
      (id_t (tasks st ! k) = i \<longrightarrow>
         tasks (toggleComplete i st) ! k
           = (tasks st ! k)\<lparr>completed := \<not> completed (tasks st ! k)\<rparr>)) \<and>
   (i \<notin> id_t ` set (tasks st) \<longrightarrow> toggleComplete i st = st)"
proof -
  have a: "toggleComplete i (toggleComplete i st) = st"
    by (simp add: toggleComplete_def toggle_twice_tasks del: map_map)
  have b: "length (tasks (toggleComplete i st)) = length (tasks st)"
    by (simp add: toggleComplete_def)
  have c: "\<forall>k < length (tasks st).
      (id_t (tasks st ! k) \<noteq> i \<longrightarrow> tasks (toggleComplete i st) ! k = tasks st ! k) \<and>
      (id_t (tasks st ! k) = i \<longrightarrow>
         tasks (toggleComplete i st) ! k
           = (tasks st ! k)\<lparr>completed := \<not> completed (tasks st ! k)\<rparr>)"
    by (simp add: toggleComplete_def)
  have "i \<notin> id_t ` set (tasks st) \<Longrightarrow>
     map (\<lambda>t. if id_t t = i then t\<lparr>completed := \<not> completed t\<rparr> else t) (tasks st) = tasks st"
    by (rule map_idI) auto
  then have d: "i \<notin> id_t ` set (tasks st) \<longrightarrow> toggleComplete i st = st"
    by (simp add: toggleComplete_def)
  from a b c d show ?thesis by blast
qed

theorem toggle_twice_restores_witness:
  "toggleComplete (ascii ''1'') (toggleComplete (ascii ''1'')
      \<lparr>tasks = [\<lparr>id_t = ascii ''1'', text_t = ascii ''a'', completed = False, dueDate = None\<rparr>,
                \<lparr>id_t = ascii ''2'', text_t = ascii ''b'', completed = False, dueDate = None\<rparr>],
       inputValue = [], selectedDate = None, sortBy = Deadline\<rparr>)
   = \<lparr>tasks = [\<lparr>id_t = ascii ''1'', text_t = ascii ''a'', completed = False, dueDate = None\<rparr>,
               \<lparr>id_t = ascii ''2'', text_t = ascii ''b'', completed = False, dueDate = None\<rparr>],
      inputValue = [], selectedDate = None, sortBy = Deadline\<rparr> \<and>
   tasks (toggleComplete (ascii ''1'')
      \<lparr>tasks = [\<lparr>id_t = ascii ''1'', text_t = ascii ''a'', completed = False, dueDate = None\<rparr>,
                \<lparr>id_t = ascii ''2'', text_t = ascii ''b'', completed = False, dueDate = None\<rparr>],
       inputValue = [], selectedDate = None, sortBy = Deadline\<rparr>) ! 1
   = \<lparr>id_t = ascii ''2'', text_t = ascii ''b'', completed = False, dueDate = None\<rparr>"
  using toggle_twice_restores [of "ascii ''1''"
      "\<lparr>tasks = [\<lparr>id_t = ascii ''1'', text_t = ascii ''a'', completed = False, dueDate = None\<rparr>,
                 \<lparr>id_t = ascii ''2'', text_t = ascii ''b'', completed = False, dueDate = None\<rparr>],
        inputValue = [], selectedDate = None, sortBy = Deadline\<rparr>"]
  by (simp add: ascii_def)

lemma length_filter_distinct:
  "distinct (map f xs) \<Longrightarrow> i \<in> f ` set xs \<Longrightarrow>
   length (filter (\<lambda>t. f t \<noteq> i) xs) + 1 = length xs"
proof (induction xs)
  case Nil
  then show ?case by simp
next
  case (Cons x xs)
  show ?case
  proof (cases "f x = i")
    case True
    with Cons.prems have "i \<notin> f ` set xs" by auto
    then have "filter (\<lambda>t. f t \<noteq> i) xs = xs" by (intro filter_True) auto
    with True show ?thesis by simp
  next
    case False
    with Cons show ?thesis by auto
  qed
qed

text \<open>
  C6, as the code has it. Deleting an id that no task carries changes nothing. Deleting
  an id removes every task that carries it: no task with that id is left, the tasks left
  are the tasks with another id, with their values and in their order, and the length
  drops by the number of tasks that carried the id. That number is one when the ids of
  the list are pairwise distinct.
\<close>

theorem delete_removes_id:
  "(i \<notin> id_t ` set (tasks st) \<longrightarrow> deleteTask i st = st) \<and>
   i \<notin> id_t ` set (tasks (deleteTask i st)) \<and>
   tasks (deleteTask i st) = filter (\<lambda>t. id_t t \<noteq> i) (tasks st) \<and>
   length (tasks (deleteTask i st)) + length (filter (\<lambda>t. id_t t = i) (tasks st))
     = length (tasks st) \<and>
   (distinct (map id_t (tasks st)) \<and> i \<in> id_t ` set (tasks st) \<longrightarrow>
      length (tasks (deleteTask i st)) + 1 = length (tasks st))"
proof -
  have a: "i \<notin> id_t ` set (tasks st) \<longrightarrow> deleteTask i st = st"
  proof
    assume "i \<notin> id_t ` set (tasks st)"
    then have "filter (\<lambda>t. id_t t \<noteq> i) (tasks st) = tasks st"
      by (intro filter_True) auto
    then show "deleteTask i st = st" by (simp add: deleteTask_def)
  qed
  have b: "i \<notin> id_t ` set (tasks (deleteTask i st))"
    by (auto simp: deleteTask_def)
  have c: "tasks (deleteTask i st) = filter (\<lambda>t. id_t t \<noteq> i) (tasks st)"
    by (simp add: deleteTask_def)
  have d: "length (tasks (deleteTask i st)) + length (filter (\<lambda>t. id_t t = i) (tasks st))
     = length (tasks st)"
    using sum_length_filter_compl [of "\<lambda>t. id_t t = i" "tasks st"]
    by (simp add: deleteTask_def)
  have e: "distinct (map id_t (tasks st)) \<and> i \<in> id_t ` set (tasks st) \<longrightarrow>
      length (tasks (deleteTask i st)) + 1 = length (tasks st)"
    using length_filter_distinct [of id_t "tasks st" i] by (simp add: deleteTask_def)
  from a b c d e show ?thesis by blast
qed

theorem delete_removes_id_witness:
  "length (tasks (deleteTask (ascii ''1'')
      \<lparr>tasks = [\<lparr>id_t = ascii ''1'', text_t = ascii ''a'', completed = False, dueDate = None\<rparr>,
                \<lparr>id_t = ascii ''2'', text_t = ascii ''b'', completed = False, dueDate = None\<rparr>],
       inputValue = [], selectedDate = None, sortBy = Deadline\<rparr>)) + 1 = 2 \<and>
   deleteTask (ascii ''3'')
      \<lparr>tasks = [\<lparr>id_t = ascii ''1'', text_t = ascii ''a'', completed = False, dueDate = None\<rparr>,
                \<lparr>id_t = ascii ''2'', text_t = ascii ''b'', completed = False, dueDate = None\<rparr>],
       inputValue = [], selectedDate = None, sortBy = Deadline\<rparr>
   = \<lparr>tasks = [\<lparr>id_t = ascii ''1'', text_t = ascii ''a'', completed = False, dueDate = None\<rparr>,
               \<lparr>id_t = ascii ''2'', text_t = ascii ''b'', completed = False, dueDate = None\<rparr>],
      inputValue = [], selectedDate = None, sortBy = Deadline\<rparr>"
  using
    delete_removes_id [of "ascii ''1''"
      "\<lparr>tasks = [\<lparr>id_t = ascii ''1'', text_t = ascii ''a'', completed = False, dueDate = None\<rparr>,
                 \<lparr>id_t = ascii ''2'', text_t = ascii ''b'', completed = False, dueDate = None\<rparr>],
        inputValue = [], selectedDate = None, sortBy = Deadline\<rparr>"]
    delete_removes_id [of "ascii ''3''"
      "\<lparr>tasks = [\<lparr>id_t = ascii ''1'', text_t = ascii ''a'', completed = False, dueDate = None\<rparr>,
                 \<lparr>id_t = ascii ''2'', text_t = ascii ''b'', completed = False, dueDate = None\<rparr>],
        inputValue = [], selectedDate = None, sortBy = Deadline\<rparr>"]
  by (simp add: ascii_def)

text \<open>
  The length does not always drop by one: in a list of two tasks with the id \<open>1\<close>, the id is
  present and deleting it removes both.
\<close>

theorem delete_duplicate_counterexample:
  "ascii ''1'' \<in> id_t ` set (tasks
      \<lparr>tasks = [\<lparr>id_t = ascii ''1'', text_t = ascii ''a'', completed = False, dueDate = None\<rparr>,
                \<lparr>id_t = ascii ''1'', text_t = ascii ''b'', completed = False, dueDate = None\<rparr>],
       inputValue = [], selectedDate = None, sortBy = Deadline\<rparr>) \<and>
   length (tasks (deleteTask (ascii ''1'')
      \<lparr>tasks = [\<lparr>id_t = ascii ''1'', text_t = ascii ''a'', completed = False, dueDate = None\<rparr>,
                \<lparr>id_t = ascii ''1'', text_t = ascii ''b'', completed = False, dueDate = None\<rparr>],
       inputValue = [], selectedDate = None, sortBy = Deadline\<rparr>)) + 1
   \<noteq> length (tasks
      \<lparr>tasks = [\<lparr>id_t = ascii ''1'', text_t = ascii ''a'', completed = False, dueDate = None\<rparr>,
                \<lparr>id_t = ascii ''1'', text_t = ascii ''b'', completed = False, dueDate = None\<rparr>],
       inputValue = [], selectedDate = None, sortBy = Deadline\<rparr>)"
  by (simp add: deleteTask_def)

subsection \<open>The deadline view\<close>

lemma compare_le_iff: "compareTasks a b \<le> 0 \<longleftrightarrow> deadlineKey a \<le> deadlineKey b"
  by (auto simp: compareTasks_def deadlineKey_def less_eq_prod_def split: option.splits)

lemma comesBefore_iff: "comesBefore a b \<longleftrightarrow> deadlineKey a < deadlineKey b"
  by (auto simp: comesBefore_def deadlineKey_def less_prod_def split: option.splits)

lemma tied_iff: "tied a b \<longleftrightarrow> deadlineKey b = deadlineKey a"
  by (auto simp: tied_def comesBefore_iff)

lemma insertBy_insort: "insertBy compareTasks x xs = insort_key deadlineKey x xs"
  by (induction xs) (simp_all add: compare_le_iff)

lemma array_sort_sort_key: "array_sort compareTasks xs = sort_key deadlineKey xs"
  by (induction xs) (simp_all add: insertBy_insort)

lemma sorted_deadline: "sorted_wrt (\<lambda>a b. \<not> comesBefore b a) (sort_key deadlineKey xs)"
proof -
  have "sorted (map deadlineKey (sort_key deadlineKey xs))" by (rule sorted_sort_key)
  then have "sorted_wrt (\<lambda>a b. deadlineKey a \<le> deadlineKey b) (sort_key deadlineKey xs)"
    by (simp add: sorted_map)
  then show ?thesis
    by (rule sorted_wrt_mono_rel [rotated]) (simp add: comesBefore_iff not_less)
qed

text \<open>
  C1. In the sort mode \<open>deadline\<close>, \<open>getSortedTasks\<close> returns the stable sort of the task
  list by the key (completed, undated, due date): the result is a permutation of the
  list; no task of the result comes before an earlier one in the order of the
  specification (incomplete before completed, then dated before undated, then the earlier
  due date first); and the tasks that are tied in that order keep their order of
  insertion. Adding A without a date, B due a day before today and C due a day after
  today to the empty list gives the view B, C, A.
\<close>

theorem deadline_sort:
  "getSortedTasks (st\<lparr>sortBy := Deadline\<rparr>) = sort_key deadlineKey (tasks st) \<and>
   mset (getSortedTasks (st\<lparr>sortBy := Deadline\<rparr>)) = mset (tasks st) \<and>
   sorted_wrt (\<lambda>a b. \<not> comesBefore b a) (getSortedTasks (st\<lparr>sortBy := Deadline\<rparr>)) \<and>
   (\<forall>t. filter (tied t) (getSortedTasks (st\<lparr>sortBy := Deadline\<rparr>))
          = filter (tied t) (tasks st)) \<and>
   getSortedTasks
     (run [SetInputValue (ascii ''A''), AddTask n1,
           SetInputValue (ascii ''B''), SetSelectedDate (Some (today - msPerDay)), AddTask n2,
           SetInputValue (ascii ''C''), SetSelectedDate (Some (today + msPerDay)), AddTask n3]
        initial)
     = [\<lparr>id_t = toString n2, text_t = ascii ''B'', completed = False,
          dueDate = Some (today - msPerDay)\<rparr>,
        \<lparr>id_t = toString n3, text_t = ascii ''C'', completed = False,
          dueDate = Some (today + msPerDay)\<rparr>,
        \<lparr>id_t = toString n1, text_t = ascii ''A'', completed = False, dueDate = None\<rparr>]"
proof -
  have s: "getSortedTasks (st\<lparr>sortBy := Deadline\<rparr>) = sort_key deadlineKey (tasks st)"
    by (simp add: getSortedTasks_def array_sort_sort_key)
  have m: "mset (sort_key deadlineKey (tasks st)) = mset (tasks st)"
    by simp
  have f: "\<forall>t. filter (tied t) (sort_key deadlineKey (tasks st)) = filter (tied t) (tasks st)"
  proof
    fix t
    have "tied t = (\<lambda>u. deadlineKey u = deadlineKey t)"
      by (simp add: fun_eq_iff tied_iff)
    then show "filter (tied t) (sort_key deadlineKey (tasks st)) = filter (tied t) (tasks st)"
      by (simp add: sort_key_stable)
  qed
  have tA: "trim (ascii ''A'') = ascii ''A''" by code_simp
  have tB: "trim (ascii ''B'') = ascii ''B''" by code_simp
  have tC: "trim (ascii ''C'') = ascii ''C''" by code_simp
  have nA: "ascii ''A'' \<noteq> []" and nB: "ascii ''B'' \<noteq> []" and nC: "ascii ''C'' \<noteq> []"
    by (simp_all add: ascii_def)
  have e: "getSortedTasks
     (run [SetInputValue (ascii ''A''), AddTask n1,
           SetInputValue (ascii ''B''), SetSelectedDate (Some (today - msPerDay)), AddTask n2,
           SetInputValue (ascii ''C''), SetSelectedDate (Some (today + msPerDay)), AddTask n3]
        initial)
     = [\<lparr>id_t = toString n2, text_t = ascii ''B'', completed = False,
          dueDate = Some (today - msPerDay)\<rparr>,
        \<lparr>id_t = toString n3, text_t = ascii ''C'', completed = False,
          dueDate = Some (today + msPerDay)\<rparr>,
        \<lparr>id_t = toString n1, text_t = ascii ''A'', completed = False, dueDate = None\<rparr>]"
    by (simp add: initial_def addTask_def tA tB tC nA nB nC getSortedTasks_def
          compareTasks_def msPerDay_def)
  from s m f e sorted_deadline [of "tasks st"] show ?thesis by simp
qed

theorem deadline_sort_witness:
  "getSortedTasks
     (run [SetInputValue (ascii ''A''), AddTask 1,
           SetInputValue (ascii ''B''), SetSelectedDate (Some (1700000000000 - msPerDay)),
           AddTask 2,
           SetInputValue (ascii ''C''), SetSelectedDate (Some (1700000000000 + msPerDay)),
           AddTask 3]
        initial)
     = [\<lparr>id_t = toString 2, text_t = ascii ''B'', completed = False,
          dueDate = Some (1700000000000 - msPerDay)\<rparr>,
        \<lparr>id_t = toString 3, text_t = ascii ''C'', completed = False,
          dueDate = Some (1700000000000 + msPerDay)\<rparr>,
        \<lparr>id_t = toString 1, text_t = ascii ''A'', completed = False, dueDate = None\<rparr>]"
  using deadline_sort [of initial 1 1700000000000 2 3] by blast

subsection \<open>The overdue flag\<close>





subsection \<open>Saving and loading\<close>

lemma key_neq:
  "ascii ''id'' \<noteq> ascii ''dueDate''" "ascii ''text'' \<noteq> ascii ''dueDate''"
  "ascii ''completed'' \<noteq> ascii ''dueDate''"
  "ascii ''dueDate'' \<noteq> ascii ''id''" "ascii ''dueDate'' \<noteq> ascii ''text''"
  "ascii ''dueDate'' \<noteq> ascii ''completed''"
  by (simp_all add: ascii_def)

lemma key_neq2:
  "ascii ''id'' \<noteq> ascii ''text''" "ascii ''id'' \<noteq> ascii ''completed''"
  "ascii ''text'' \<noteq> ascii ''completed''" "ascii ''text'' \<noteq> ascii ''id''"
  "ascii ''completed'' \<noteq> ascii ''id''" "ascii ''completed'' \<noteq> ascii ''text''"
  by (simp_all add: ascii_def)

lemma isTaskJSON_stringify: "isTaskJSON (stringifyTask toISOString t)"
  by (cases "dueDate t") (simp_all add: stringifyTask_def key_neq key_neq2)

lemma saved_expectedShape: "expectedShape (saveTasks toISOString ts)"
  by (simp add: expectedShape_def saveTasks_def list_all_iff isTaskJSON_stringify)

lemma revive_stringify:
  assumes "\<And>d. dueDate t = Some d \<Longrightarrow>
             toISOString d \<noteq> [] \<and> newDate (VStr (toISOString d)) = Inr (Some d)"
  shows "reviveTask newDate (stringifyTask toISOString t) = Inr (taskObject t)"
proof (cases "dueDate t")
  case None
  then show ?thesis
    by (simp add: reviveTask_def stringifyTask_def taskObject_def key_neq)
next
  case (Some d)
  with assms [of d] show ?thesis
    by (simp add: reviveTask_def stringifyTask_def taskObject_def key_neq)
qed

lemma array_map_revive:
  assumes "\<forall>t\<in>set ts. \<forall>d. dueDate t = Some d \<longrightarrow>
             toISOString d \<noteq> [] \<and> newDate (VStr (toISOString d)) = Inr (Some d)"
  shows "array_map (reviveTask newDate) (map (stringifyTask toISOString) ts)
           = Inr (map taskObject ts)"
  using assms
proof (induction ts)
  case Nil
  show ?case by simp
next
  case (Cons t ts)
  then have "reviveTask newDate (stringifyTask toISOString t) = Inr (taskObject t)"
    by (intro revive_stringify) simp
  with Cons show ?case by simp
qed

text \<open>
  C7. Saving a task sequence and loading what was saved sets \<open>tasks\<close> to the array of the
  objects of the original tasks, with no diagnostic: the same length, and in each place
  the same id, text and completed flag, the same instant as due date (so the same
  calendar day), and \<open>undefined\<close> where there was no due date. What is saved has the
  expected shape. The library is used under its contract: for each due date of the
  sequence, \<open>toISOString\<close> gives a non-empty string from which the \<open>Date\<close> constructor
  gives the date back.
\<close>

theorem save_load_roundtrip:
  assumes "\<forall>t\<in>set ts. \<forall>d. dueDate t = Some d \<longrightarrow>
             toISOString d \<noteq> [] \<and> newDate (VStr (toISOString d)) = Inr (Some d)"
  shows "loadTasks newDate (saveTasks toISOString ts) atMount
           = Inr (atMount\<lparr>tasksValue := VArr (map taskObject ts)\<rparr>) \<and>
         length (map taskObject ts) = length ts \<and>
         expectedShape (saveTasks toISOString ts)"
  using array_map_revive [OF assms]
  by (simp add: loadTasks_def saveTasks_def withDates_def saved_expectedShape [unfolded saveTasks_def])

theorem save_load_roundtrip_witness:
  "loadTasks (\<lambda>v. Inr (Some 0))
     (saveTasks (\<lambda>d. ascii ''1970-01-01T00:00:00.000Z'')
        [\<lparr>id_t = ascii ''1'', text_t = ascii ''a'', completed = True, dueDate = Some 0\<rparr>,
         \<lparr>id_t = ascii ''2'', text_t = ascii ''b'', completed = False, dueDate = None\<rparr>])
     atMount
   = Inr (atMount\<lparr>tasksValue := VArr
       [VObj [(ascii ''id'', VStr (ascii ''1'')), (ascii ''text'', VStr (ascii ''a'')),
              (ascii ''completed'', VBool True), (ascii ''dueDate'', VDate (Some 0))],
        VObj [(ascii ''id'', VStr (ascii ''2'')), (ascii ''text'', VStr (ascii ''b'')),
              (ascii ''completed'', VBool False), (ascii ''dueDate'', VUndefined)]]\<rparr>)"
proof -
  have n: "ascii ''1970-01-01T00:00:00.000Z'' \<noteq> []" by (simp add: ascii_def)
  show ?thesis
    using save_load_roundtrip [of
      "[\<lparr>id_t = ascii ''1'', text_t = ascii ''a'', completed = True, dueDate = Some 0\<rparr>,
        \<lparr>id_t = ascii ''2'', text_t = ascii ''b'', completed = False, dueDate = None\<rparr>]"
      "\<lambda>d. ascii ''1970-01-01T00:00:00.000Z''" "\<lambda>v. Inr (Some 0)"] n
    by (simp add: taskObject_def)
qed

subsection \<open>Loading malformed content\<close>

text \<open>
  C8 fails on the code. When \<open>JSON.parse\<close> throws, the load effect catches it, logs the
  diagnostic and leaves the empty list, in both versions. But content that parses and
  is not of the expected shape is not always discarded. The stored text \<open>5\<close> parses to a
  number: the second version catches the TypeError of \<open>parsedTasks.map\<close> and keeps the
  empty list, while the first version, which has the same \<open>try\<close> and \<open>catch\<close>, sets
  \<open>tasks\<close> to the number, and the render that follows throws a TypeError that nothing
  catches. The stored text \<open>[1]\<close> makes the second version set \<open>tasks\<close> to a list of one
  object without id, text and completed flag, with no diagnostic.
\<close>

theorem malformed_content_not_discarded:
  "loadTasks1 Unparsable atMount = Inr (atMount\<lparr>consoleErrors := [parseFailed]\<rparr>) \<and>
   loadTasks newDate Unparsable atMount = Inr (atMount\<lparr>consoleErrors := [parseFailed]\<rparr>) \<and>
   \<not> expectedShape (Document (VNum 5)) \<and>
   loadTasks newDate (Document (VNum 5)) atMount
     = Inr (atMount\<lparr>consoleErrors := [parseFailed]\<rparr>) \<and>
   loadTasks1 (Document (VNum 5)) atMount = Inr (atMount\<lparr>tasksValue := VNum 5\<rparr>) \<and>
   mount1 (Document (VNum 5)) = Inl TypeError \<and>
   \<not> expectedShape (Document (VArr [VNum 1])) \<and>
   loadTasks newDate (Document (VArr [VNum 1])) atMount
     = Inr (atMount\<lparr>tasksValue := VArr [VObj [(ascii ''dueDate'', VUndefined)]]\<rparr>)"
  by (simp add: expectedShape_def loadTasks_def loadTasks1_def withDates_def reviveTask_def
        mount1_def render1_def atMount_def)

subsection \<open>The two versions\<close>

lemma forget_addTask: "forgetState (addTask now st) = addTask1 now (forgetState st)"
  by (simp add: forgetState_def addTask_def addTask1_def forgetTask_def Let_def)

lemma forget_toggleComplete:
  "forgetState (toggleComplete i st) = toggleComplete1 i (forgetState st)"
  by (simp add: forgetState_def toggleComplete_def toggleComplete1_def forgetTask_def o_def
        if_distrib cong: if_cong)

lemma forget_deleteTask: "forgetState (deleteTask i st) = deleteTask1 i (forgetState st)"
  by (simp add: forgetState_def deleteTask_def deleteTask1_def forgetTask_def filter_map o_def)

lemma forget_run: "run1 (forgetEvents evs) (forgetState st) = forgetState (run evs st)"
proof (induction evs arbitrary: st)
  case Nil
  show ?case by simp
next
  case (Cons e es)
  show ?case
  proof (cases e)
    case (SetInputValue s)
    have "forgetState (st\<lparr>inputValue := s\<rparr>) = (forgetState st)\<lparr>inputValue1 := s\<rparr>"
      by (simp add: forgetState_def)
    with SetInputValue Cons.IH [of "st\<lparr>inputValue := s\<rparr>"] show ?thesis by simp
  next
    case (SetSelectedDate d)
    have "forgetState (st\<lparr>selectedDate := d\<rparr>) = forgetState st"
      by (simp add: forgetState_def)
    with SetSelectedDate Cons.IH [of "st\<lparr>selectedDate := d\<rparr>"] show ?thesis by simp
  next
    case (SetSortBy m)
    have "forgetState (st\<lparr>sortBy := m\<rparr>) = forgetState st"
      by (simp add: forgetState_def)
    with SetSortBy Cons.IH [of "st\<lparr>sortBy := m\<rparr>"] show ?thesis by simp
  next
    case (AddTask now)
    with Cons.IH [of "addTask now st"] show ?thesis by (simp add: forget_addTask)
  next
    case (ToggleComplete i)
    with Cons.IH [of "toggleComplete i st"] show ?thesis by (simp add: forget_toggleComplete)
  next
    case (DeleteTask i)
    with Cons.IH [of "deleteTask i st"] show ?thesis by (simp add: forget_deleteTask)
  qed
qed

text \<open>
  C10. The two versions agree on the store operations. For every run of the second
  version from any state, the first version, run on the same events without those of the
  date picker and of the sort mode, from the same state without due dates, ends in the
  state of the second version without due dates. From the initial states, the task list
  of the first version is the task list of the second one projected to id, text and
  completed.
\<close>

theorem versions_agree:
  "run1 (forgetEvents evs) (forgetState st) = forgetState (run evs st) \<and>
   tasks1 (run1 (forgetEvents evs) initial1) = map forgetTask (tasks (run evs initial))"
proof -
  have "forgetState initial = initial1"
    by (simp add: forgetState_def initial_def initial1_def)
  then have "run1 (forgetEvents evs) initial1 = forgetState (run evs initial)"
    using forget_run [of evs initial] by simp
  then have "tasks1 (run1 (forgetEvents evs) initial1) = map forgetTask (tasks (run evs initial))"
    by (simp add: forgetState_def)
  with forget_run [of evs st] show ?thesis by (rule_tac conjI)
qed

theorem versions_agree_witness:
  "tasks1 (run1 (forgetEvents
      [SetInputValue (ascii ''a''), SetSelectedDate (Some 7), AddTask 1,
       SetSortBy SortNone, ToggleComplete (toString 1), DeleteTask (toString 2)]) initial1)
   = [\<lparr>id_t1 = toString 1, text_t1 = ascii ''a'', completed1 = True\<rparr>] \<and>
   map forgetTask (tasks (run
      [SetInputValue (ascii ''a''), SetSelectedDate (Some 7), AddTask 1,
       SetSortBy SortNone, ToggleComplete (toString 1), DeleteTask (toString 2)] initial))
   = [\<lparr>id_t1 = toString 1, text_t1 = ascii ''a'', completed1 = True\<rparr>]"
proof -
  have t: "trim (ascii ''a'') = ascii ''a''" by code_simp
  have n: "ascii ''a'' \<noteq> []" by (simp add: ascii_def)
  have d: "toString 1 \<noteq> toString 2"
    by (simp add: toString_def digits_eval digit_def)
  have "tasks1 (run1 (forgetEvents
      [SetInputValue (ascii ''a''), SetSelectedDate (Some 7), AddTask 1,
       SetSortBy SortNone, ToggleComplete (toString 1), DeleteTask (toString 2)]) initial1)
   = [\<lparr>id_t1 = toString 1, text_t1 = ascii ''a'', completed1 = True\<rparr>]"
    by (simp add: initial1_def addTask1_def toggleComplete1_def deleteTask1_def t n d)
  with versions_agree [of
      "[SetInputValue (ascii ''a''), SetSelectedDate (Some 7), AddTask 1,
        SetSortBy SortNone, ToggleComplete (toString 1), DeleteTask (toString 2)]" initial]
  show ?thesis by simp
qed

subsection \<open>Uniqueness of ids\<close>

lemma ids_toggleComplete: "map id_t (tasks (toggleComplete i st)) = map id_t (tasks st)"
  by (simp add: toggleComplete_def o_def if_distrib cong: if_cong)

lemma ids_deleteTask:
  "distinct (map id_t (tasks st)) \<Longrightarrow> distinct (map id_t (tasks (deleteTask i st)))"
  by (simp add: deleteTask_def distinct_map_filter)

lemma ids_addTask:
  "distinct (map id_t (tasks st)) \<Longrightarrow>
   trim (inputValue st) = [] \<or> toString now \<notin> set (map id_t (tasks st)) \<Longrightarrow>
   distinct (map id_t (tasks (addTask now st)))"
  by (auto simp: addTask_def Let_def)

lemma distinct_run:
  "distinct (map id_t (tasks st)) \<Longrightarrow> freshAdds evs st \<Longrightarrow>
   distinct (map id_t (tasks (run evs st)))"
proof (induction evs arbitrary: st)
  case Nil
  then show ?case by simp
next
  case (Cons e es)
  have "distinct (map id_t (tasks (step e st))) \<and> freshAdds es (step e st)"
  proof (cases e)
    case (AddTask now)
    with Cons.prems show ?thesis by (simp add: ids_addTask)
  next
    case (ToggleComplete i)
    with Cons.prems show ?thesis by (simp add: ids_toggleComplete)
  next
    case (DeleteTask i)
    with Cons.prems show ?thesis by (simp add: ids_deleteTask)
  qed (use Cons.prems in simp_all)
  then show ?case using Cons.IH [of "step e st"] by simp
qed

lemma code_unit_of_nat_inj:
  "n < 65536 \<Longrightarrow> m < 65536 \<Longrightarrow> word_of_nat n = (word_of_nat m :: code_unit) \<Longrightarrow> n = m"
  by (simp add: word_of_nat_eq_iff take_bit_nat_eq_self)

lemma digit_inj: "a < 10 \<Longrightarrow> b < 10 \<Longrightarrow> digit a = digit b \<Longrightarrow> a = b"
  using code_unit_of_nat_inj [of "48 + a" "48 + b"] unfolding digit_def by simp

lemma digit_not_minus: "k < 10 \<Longrightarrow> digit k \<noteq> 0x002D"
  using code_unit_of_nat_inj [of "48 + k" 45] unfolding digit_def by auto

lemma digits_nonempty: "digits n \<noteq> []"
  by (subst digits.simps) simp

lemma digits_inj: "digits n = digits m \<Longrightarrow> n = m"
proof (induction n arbitrary: m rule: digits.induct)
  case (1 n)
  show ?case
  proof (cases "n < 10")
    case n: True
    show ?thesis
    proof (cases "m < 10")
      case True
      with n "1.prems" show ?thesis
        by (simp add: digits.simps [of n] digits.simps [of m] digit_inj)
    next
      case False
      with n "1.prems" digits_nonempty [of "m div 10"] show ?thesis
        by (simp add: digits.simps [of n] digits.simps [of m])
    qed
  next
    case n: False
    show ?thesis
    proof (cases "m < 10")
      case True
      with n "1.prems" digits_nonempty [of "n div 10"] show ?thesis
        by (simp add: digits.simps [of n] digits.simps [of m])
    next
      case False
      with n "1.prems" have e: "digits (n div 10) = digits (m div 10)"
        and d: "digit (n mod 10) = digit (m mod 10)"
        by (simp_all add: digits.simps [of n] digits.simps [of m])
      from "1.IH" [OF n e] have "n div 10 = m div 10" .
      moreover from d have "n mod 10 = m mod 10" by (simp add: digit_inj)
      ultimately show ?thesis by (metis div_mult_mod_eq)
    qed
  qed
qed

lemma digits_no_minus: "0x002D \<notin> set (digits n)"
proof (induction n rule: digits.induct)
  case (1 n)
  have d: "digit k \<noteq> 0x002D" if "k < 10" for k
    using that by (rule digit_not_minus)
  show ?case
  proof (cases "n < 10")
    case True
    then show ?thesis by (simp add: digits.simps [of n] d)
  next
    case False
    with "1.IH" show ?thesis by (simp add: digits.simps [of n] d)
  qed
qed

lemma toString_inj: "toString i = toString j \<Longrightarrow> i = j"
proof -
  assume e: "toString i = toString j"
  have h: "0x002D # xs \<noteq> digits n" for n xs
  proof
    assume "0x002D # xs = digits n"
    then have "0x002D \<in> set (digits n)" by (metis list.set_intros(1))
    with digits_no_minus [of n] show False by blast
  qed
  show ?thesis
  proof (cases "i < 0"; cases "j < 0")
    assume "i < 0" "j < 0"
    with e have "nat (- i) = nat (- j)" by (simp add: toString_def digits_inj)
    with \<open>i < 0\<close> \<open>j < 0\<close> show ?thesis by simp
  next
    assume "i < 0" "\<not> j < 0"
    with e h [of "digits (nat (- i))" "nat j"] show ?thesis by (simp add: toString_def)
  next
    assume "\<not> i < 0" "j < 0"
    with e h [of "digits (nat (- j))" "nat i"] show ?thesis by (simp add: toString_def)
  next
    assume "\<not> i < 0" "\<not> j < 0"
    with e have "nat i = nat j" by (simp add: toString_def digits_inj)
    with \<open>\<not> i < 0\<close> \<open>\<not> j < 0\<close> show ?thesis by simp
  qed
qed

lemma ids_step:
  "set (map id_t (tasks (step e st)))
     \<subseteq> set (map id_t (tasks st)) \<union> toString ` set (clocks [e])"
  by (cases e) (auto simp: addTask_def toggleComplete_def deleteTask_def Let_def)

lemma clocks_fresh:
  "distinct (clocks evs) \<Longrightarrow>
   toString ` set (clocks evs) \<inter> set (map id_t (tasks st)) = {} \<Longrightarrow> freshAdds evs st"
proof (induction evs arbitrary: st)
  case Nil
  show ?case by simp
next
  case (Cons e es)
  have sub: "set (map id_t (tasks (step e st)))
               \<subseteq> set (map id_t (tasks st)) \<union> toString ` set (clocks [e])"
    by (rule ids_step)
  have d: "distinct (clocks es)" using Cons.prems(1) by (cases e) auto
  have "toString ` set (clocks es) \<inter> set (map id_t (tasks (step e st))) = {}"
  proof (cases e)
    case (AddTask now)
    with Cons.prems have "now \<notin> set (clocks es)" by simp
    then have "toString now \<notin> toString ` set (clocks es)"
      by (auto dest: toString_inj)
    with Cons.prems(2) AddTask
    have "toString ` set (clocks es)
            \<inter> (set (map id_t (tasks st)) \<union> toString ` set (clocks [e])) = {}"
      by auto
    with sub show ?thesis by blast
  qed (use sub Cons.prems(2) in auto)
  from Cons.IH [OF d this] have r: "freshAdds es (step e st)" .
  show ?case
  proof (cases e)
    case (AddTask now)
    with r Cons.prems(2) show ?thesis by auto
  qed (use r in auto)
qed

text \<open>
  C9, as the code has it. The id of a new task is the decimal string of the clock value,
  and nothing compares it with the ids of the store. Starting from pairwise distinct
  ids, a run keeps the ids pairwise distinct when every add that appends reads a clock
  value whose string is not yet an id of the store; toggling and deleting never break
  it. This is the case when the clock values of the adds are pairwise distinct and none
  of their strings is an id of the starting store. The same holds for the first version.
\<close>

theorem ids_stay_distinct:
  assumes "distinct (map id_t (tasks st))"
    and "freshAdds evs st \<or>
         distinct (clocks evs) \<and>
         toString ` set (clocks evs) \<inter> set (map id_t (tasks st)) = {}"
  shows "distinct (map id_t (tasks (run evs st))) \<and>
         distinct (map id_t1 (tasks1 (run1 (forgetEvents evs) (forgetState st))))"
proof -
  from assms(2) have "freshAdds evs st" using clocks_fresh [of evs st] by blast
  with assms(1) have d: "distinct (map id_t (tasks (run evs st)))" by (rule distinct_run)
  have "map id_t1 (tasks1 (forgetState (run evs st))) = map id_t (tasks (run evs st))"
    by (simp add: forgetState_def forgetTask_def o_def)
  with d show ?thesis by (simp add: forget_run)
qed

theorem ids_stay_distinct_witness:
  "distinct (map id_t (tasks (run
      [SetInputValue (ascii ''a''), AddTask 1, SetInputValue (ascii ''b''), AddTask 2,
       ToggleComplete (toString 1), SetInputValue (ascii ''c''), AddTask 3,
       DeleteTask (toString 2)] initial)))"
proof -
  have "distinct (map id_t (tasks initial))" by (simp add: initial_def)
  moreover have "freshAdds
      [SetInputValue (ascii ''a''), AddTask 1, SetInputValue (ascii ''b''), AddTask 2,
       ToggleComplete (toString 1), SetInputValue (ascii ''c''), AddTask 3,
       DeleteTask (toString 2)] initial \<or>
     distinct (clocks
      [SetInputValue (ascii ''a''), AddTask 1, SetInputValue (ascii ''b''), AddTask 2,
       ToggleComplete (toString 1), SetInputValue (ascii ''c''), AddTask 3,
       DeleteTask (toString 2)]) \<and>
     toString ` set (clocks
      [SetInputValue (ascii ''a''), AddTask 1, SetInputValue (ascii ''b''), AddTask 2,
       ToggleComplete (toString 1), SetInputValue (ascii ''c''), AddTask 3,
       DeleteTask (toString 2)]) \<inter> set (map id_t (tasks initial)) = {}"
    by (simp add: initial_def)
  ultimately show ?thesis by (rule ids_stay_distinct [THEN conjunct1])
qed

text \<open>
  The ids do not always stay distinct: two adds that read the same clock value, from the
  empty store, give two tasks with one id.
\<close>

theorem same_clock_counterexample:
  "distinct (map id_t (tasks initial)) \<and>
   \<not> distinct (map id_t (tasks (run
      [SetInputValue (ascii ''a''), AddTask 5, SetInputValue (ascii ''b''), AddTask 5]
      initial)))"
proof -
  have t: "trim (ascii ''a'') = ascii ''a''" "trim (ascii ''b'') = ascii ''b''"
    by code_simp+
  have n: "ascii ''a'' \<noteq> []" "ascii ''b'' \<noteq> []" by (simp_all add: ascii_def)
  show ?thesis by (simp add: initial_def addTask_def t n)
qed

end
